theory Spec2Isabelle
  imports Main
begin

section \<open>The page-transition hook \<open>usePageTransition\<close> (components/TransitionWrapper/service.ts)\<close>

subsection \<open>Platform values: URLs, anchors, events\<close>

text \<open>
  The hook reads three things from the browser: the string \<open>window.location.origin\<close>, the
  \<open>href\<close> property of an anchor element, and the \<open>pathname\<close> of \<open>new URL(link.href)\<close>.
  The \<open>href\<close> property reports the link's destination already resolved and serialised
  (\<open>scheme://[userinfo@]host[:port]/path[?query][#fragment]\<close>, default port left out), the
  attribute as written when it does not parse, and the empty string when the anchor has no
  \<open>href\<close> attribute. \<open>parse_url\<close> reads a serialised absolute URL into its components, with
  no normalisation. \<open>None\<close> is the \<open>TypeError\<close> that \<open>new URL\<close> throws: the reader refuses a
  string without a well-formed scheme followed by \<open>://\<close>, an empty host, a host with a
  forbidden character (a second colon among them), and a port that is not a number up to
  65535. The checks of the URL standard on the inside of a host (percent-encoding,
  internationalised names, the numbers of an IPv4 address) are not modelled. The origin of a
  URL is its scheme, host and port; the user information is not part of it.
\<close>

type_synonym element = nat

datatype error = TypeError

record url =
  url_scheme :: string
  url_userinfo :: string
  url_host :: string
  url_port :: "string option"
  url_pathname :: string
  url_search :: string
  url_hash :: string

definition is_digit :: "char \<Rightarrow> bool" where
  "is_digit c = (c \<in> set ''0123456789'')"

definition is_alpha :: "char \<Rightarrow> bool" where
  "is_alpha c = (c \<in> set ''abcdefghijklmnopqrstuvwxyzABCDEFGHIJKLMNOPQRSTUVWXYZ'')"

definition valid_scheme :: "string \<Rightarrow> bool" where
  "valid_scheme sch =
     (case sch of
        [] \<Rightarrow> False
      | c # cs \<Rightarrow> is_alpha c \<and> list_all (\<lambda>x. is_alpha x \<or> is_digit x \<or> x \<in> set ''+-.'') cs)"

definition port_number :: "string \<Rightarrow> int" where
  "port_number p = foldl (\<lambda>n c. 10 * n + (of_char c - 48)) 0 p"

definition valid_port :: "string \<Rightarrow> bool" where
  "valid_port p = (list_all is_digit p \<and> port_number p \<le> 65535)"

text \<open>
  The characters a host may not contain: controls and the space, the delete character, and
  \<open># / : < > ? @ [ \ ] ^ |\<close>. A host in square brackets is an IPv6 address.
\<close>

definition host_char_ok :: "char \<Rightarrow> bool" where
  "host_char_ok c =
     ((32::int) < of_char c \<and> of_char c \<noteq> (127::int)
      \<and> c \<notin> set [CHR ''#'', CHR ''/'', CHR '':'', CHR ''<'', CHR ''>'', CHR ''?'', CHR ''@'',
                    CHR ''['', CHR 0x5C, CHR '']'', CHR ''^'', CHR ''|''])"

definition valid_host :: "string \<Rightarrow> bool" where
  "valid_host h =
     (case h of
        [] \<Rightarrow> False
      | c # cs \<Rightarrow>
          if c = CHR ''[''
          then cs \<noteq> [] \<and> last cs = CHR '']''
               \<and> list_all (\<lambda>x. x \<in> set ''0123456789abcdefABCDEF:.'') (butlast cs)
          else list_all host_char_ok h)"

definition split_at_last :: "char \<Rightarrow> string \<Rightarrow> (string \<times> string) option" where
  "split_at_last c s =
     (if c \<in> set s
      then Some (rev (drop 1 (dropWhile (\<lambda>x. x \<noteq> c) (rev s))), rev (takeWhile (\<lambda>x. x \<noteq> c) (rev s)))
      else None)"

definition split_userinfo :: "string \<Rightarrow> string \<times> string" where
  "split_userinfo authority =
     (case split_at_last (CHR ''@'') authority of
        None \<Rightarrow> ([], authority)
      | Some (u, h) \<Rightarrow> (u, h))"

definition split_port :: "string \<Rightarrow> string \<times> string option" where
  "split_port hostport =
     (case split_at_last (CHR '':'') hostport of
        None \<Rightarrow> (hostport, None)
      | Some (h, p) \<Rightarrow>
          if CHR '']'' \<in> set p then (hostport, None)
          else if p = [] then (h, None)
          else (h, Some p))"

definition parse_url :: "string \<Rightarrow> url option" where
  "parse_url s =
     (let scheme = takeWhile (\<lambda>c. c \<noteq> CHR '':'') s;
          r0 = drop (length scheme) s;
          r1 = drop 3 r0;
          authority = takeWhile (\<lambda>c. c \<notin> set ''/?#'') r1;
          r2 = drop (length authority) r1;
          path = takeWhile (\<lambda>c. c \<notin> set ''?#'') r2;
          r3 = drop (length path) r2;
          search = takeWhile (\<lambda>c. c \<noteq> CHR ''#'') r3;
          hash = drop (length search) r3;
          hostport = snd (split_userinfo authority);
          host = fst (split_port hostport);
          port = snd (split_port hostport)
      in if \<not> valid_scheme scheme \<or> take 3 r0 \<noteq> ''://'' \<or> \<not> valid_host host
            \<or> (case port of None \<Rightarrow> False | Some p \<Rightarrow> \<not> valid_port p)
         then None
         else Some \<lparr>url_scheme = scheme,
                    url_userinfo = fst (split_userinfo authority),
                    url_host = host,
                    url_port = port,
                    url_pathname = (if path = [] then ''/'' else path),
                    url_search = search,
                    url_hash = hash\<rparr>)"

definition url_origin :: "url \<Rightarrow> string" where
  "url_origin u =
     url_scheme u @ ''://'' @ url_host u @ (case url_port u of None \<Rightarrow> [] | Some p \<Rightarrow> '':'' @ p)"

text \<open>A link is same-origin when its destination's scheme, host and port are the document's.\<close>

definition same_origin :: "string \<Rightarrow> string \<Rightarrow> bool" where
  "same_origin origin h = (case parse_url h of None \<Rightarrow> False | Some u \<Rightarrow> url_origin u = origin)"

text \<open>\<open>String.prototype.startsWith\<close>.\<close>

fun startsWith :: "string \<Rightarrow> string \<Rightarrow> bool" where
  "startsWith s [] = True"
| "startsWith [] (p # ps) = False"
| "startsWith (c # cs) (p # ps) = (c = p \<and> startsWith cs ps)"

record anchor =
  href :: string

text \<open>
  A click event, as far as \<open>handleClick\<close> looks at it: the result of
  \<open>(e.target as HTMLElement).closest("a")\<close>, \<open>None\<close> for \<open>null\<close>.
\<close>

record mouse_event =
  closest_a :: "anchor option"

text \<open>
  An \<open>animationend\<close> event as a listener sees it: \<open>currentTarget\<close> is the element whose listener
  is running, \<open>target\<close> the element the animation ran on (the same element, or a descendant the
  event bubbled up from).
\<close>

record animation_event =
  animationName :: string
  target :: element
  currentTarget :: element

subsection \<open>The state of one mounted hook\<close>

text \<open>
  The two \<open>useState\<close> cells, the value of \<open>usePathname()\<close>, the three refs, the
  \<open>animationend\<close> listeners the two effects have on the wrapper element (the exit listener
  with the \<open>targetPath\<close> its closure holds), and the log of \<open>router.push\<close> calls.
\<close>

record state =
  isTransitioning :: bool
  isEntering :: bool
  pathname :: string
  wrapperRef :: "element option"
  pendingPathRef :: "string option"
  isFirstMount :: bool
  exitListener :: "(element \<times> string) option"
  enterListener :: "element option"
  pushed :: "string list"

definition SLIDE_OUT :: string where
  "SLIDE_OUT = ''maskFadeOut''"

definition SLIDE_IN :: string where
  "SLIDE_IN = ''maskFadeIn''"

subsection \<open>The path effect (lines 53-60)\<close>

definition pathname_effect :: "state \<Rightarrow> state" where
  "pathname_effect s =
     (if \<not> isFirstMount s
      then s\<lparr>isEntering := True, isTransitioning := False\<rparr>
      else s\<lparr>isFirstMount := False\<rparr>)"

subsection \<open>The click handler (lines 63-96)\<close>

definition isSameOriginLink :: "string \<Rightarrow> string \<Rightarrow> bool" where
  "isSameOriginLink origin h = startsWith h origin"

definition isNavigableLink :: "string \<Rightarrow> string \<Rightarrow> anchor \<Rightarrow> error + bool" where
  "isNavigableLink origin current link =
     (if href link = [] \<or> \<not> isSameOriginLink origin (href link) then Inr False
      else case parse_url (href link) of
             None \<Rightarrow> Inl TypeError
           | Some u \<Rightarrow> Inr (url_pathname u \<noteq> current))"

text \<open>
  What the handler calls on the event and on the state setter, in order; \<open>handleClick\<close> returns
  this log with the state after the calls.
\<close>

datatype call = PreventDefault | StopPropagation | SetIsTransitioning bool

definition handleClick :: "string \<Rightarrow> mouse_event \<Rightarrow> state \<Rightarrow> error + (call list \<times> state)" where
  "handleClick origin e s =
     (case closest_a e of
        None \<Rightarrow> Inr ([], s)
      | Some link \<Rightarrow>
          (case isNavigableLink origin (pathname s) link of
             Inl err \<Rightarrow> Inl err
           | Inr False \<Rightarrow> Inr ([], s)
           | Inr True \<Rightarrow>
               (case parse_url (href link) of
                  None \<Rightarrow> Inl TypeError
                | Some u \<Rightarrow>
                    Inr ([PreventDefault, StopPropagation, SetIsTransitioning True],
                         s\<lparr>pendingPathRef := Some (url_pathname u), isTransitioning := True\<rparr>))))"

subsection \<open>The animation-end handlers and their effects (lines 99-136)\<close>

definition createAnimationEndHandler ::
  "string \<Rightarrow> (state \<Rightarrow> state) \<Rightarrow> animation_event \<Rightarrow> state \<Rightarrow> state" where
  "createAnimationEndHandler name onComplete e s =
     (if animationName e = name \<and> target e = currentTarget e then onComplete s else s)"

text \<open>
  An effect that runs again first runs the cleanup of its last run, which removes the listener
  that run added; a run that returns early adds none. \<open>!pendingPathRef.current\<close> holds for
  \<open>null\<close> and for the empty string.
\<close>

definition falsy :: "string option \<Rightarrow> bool" where
  "falsy r = (r = None \<or> r = Some [])"

definition exit_effect :: "state \<Rightarrow> state" where
  "exit_effect s =
     (if \<not> isTransitioning s \<or> wrapperRef s = None \<or> falsy (pendingPathRef s)
      then s\<lparr>exitListener := None\<rparr>
      else case (wrapperRef s, pendingPathRef s) of
             (Some element, Some targetPath) \<Rightarrow> s\<lparr>exitListener := Some (element, targetPath)\<rparr>
           | _ \<Rightarrow> s\<lparr>exitListener := None\<rparr>)"

definition entry_effect :: "state \<Rightarrow> state" where
  "entry_effect s =
     (if \<not> isEntering s \<or> wrapperRef s = None
      then s\<lparr>enterListener := None\<rparr>
      else s\<lparr>enterListener := wrapperRef s\<rparr>)"

definition exit_onComplete :: "string \<Rightarrow> state \<Rightarrow> state" where
  "exit_onComplete targetPath s = s\<lparr>pushed := pushed s @ [targetPath]\<rparr>"

definition entry_onComplete :: "state \<Rightarrow> state" where
  "entry_onComplete s = s\<lparr>isEntering := False, pendingPathRef := None\<rparr>"

text \<open>The listeners on the element the event is delivered to, in the order they were added.\<close>

definition dispatch_animationend :: "animation_event \<Rightarrow> state \<Rightarrow> state" where
  "dispatch_animationend e s =
     (let s1 = (case exitListener s of
                  None \<Rightarrow> s
                | Some (el, targetPath) \<Rightarrow>
                    if currentTarget e = el
                    then createAnimationEndHandler SLIDE_OUT (exit_onComplete targetPath) e s
                    else s)
      in case enterListener s of
           None \<Rightarrow> s1
         | Some el \<Rightarrow>
             if currentTarget e = el
             then createAnimationEndHandler SLIDE_IN entry_onComplete e s1
             else s1)"

subsection \<open>Rendering: which effects run after an update\<close>

text \<open>
  After a state update React renders again and runs the effects whose dependencies changed
  since the last render: the exit effect when \<open>isTransitioning\<close> changed, the entry effect when
  \<open>isEntering\<close> changed (\<open>router\<close> and \<open>createAnimationEndHandler\<close> never change). A setter called
  with the value the cell already holds changes nothing, so no effect runs.
\<close>

definition commit :: "state \<Rightarrow> state \<Rightarrow> state" where
  "commit old new =
     (let s1 = (if isTransitioning new \<noteq> isTransitioning old then exit_effect new else new)
      in if isEntering new \<noteq> isEntering old then entry_effect s1 else s1)"

definition initial :: "string \<Rightarrow> state" where
  "initial p =
     \<lparr>isTransitioning = False, isEntering = False, pathname = p, wrapperRef = None,
      pendingPathRef = None, isFirstMount = True, exitListener = None, enterListener = None,
      pushed = []\<rparr>"

text \<open>
  The first render at path \<open>p\<close>: React attaches the wrapper element to \<open>wrapperRef\<close> and then
  runs every effect once, in the order of the source (a production render; the development
  double run of effects is not part of the model).
\<close>

definition mount :: "element \<Rightarrow> string \<Rightarrow> state" where
  "mount el p = entry_effect (exit_effect (pathname_effect ((initial p)\<lparr>wrapperRef := Some el\<rparr>)))"

datatype event =
    Click mouse_event
  | AnimationEnd animation_event
  | PathChange string

text \<open>
  One event of the event loop, each handled in a task of its own: the render and the effects
  it causes are done before the next event arrives (as for the clicks of a user; two clicks
  dispatched by a script within one task would be rendered together). A click handler that
  throws leaves the state as it was. The click handler is registered again whenever
  \<open>pathname\<close> changes, so the \<open>pathname\<close> it compares with is the one of the state. A path
  notification with the path the hook already has changes no dependency, so no effect runs.
\<close>

definition step :: "string \<Rightarrow> event \<Rightarrow> state \<Rightarrow> state" where
  "step origin ev s =
     (case ev of
        Click e \<Rightarrow>
          (case handleClick origin e s of
             Inl err \<Rightarrow> s
           | Inr (calls, s') \<Rightarrow> commit s s')
      | AnimationEnd e \<Rightarrow> commit s (dispatch_animationend e s)
      | PathChange p \<Rightarrow>
          if p = pathname s then s
          else commit s (pathname_effect (s\<lparr>pathname := p\<rparr>)))"

fun run :: "string \<Rightarrow> state \<Rightarrow> event list \<Rightarrow> state" where
  "run origin s [] = s"
| "run origin s (ev # evs) = run origin (step origin ev s) evs"

subsection \<open>Runs, sample events and the invariant of a mounted hook\<close>

text \<open>The state a mounted hook is in after the events \<open>evs\<close>.\<close>

definition reached :: "string \<Rightarrow> element \<Rightarrow> string \<Rightarrow> event list \<Rightarrow> state" where
  "reached origin el p evs = run origin (mount el p) evs"

text \<open>A click on an anchor with the given \<open>href\<close>, and an animation that ends on \<open>el\<close> itself.\<close>

definition click_on :: "string \<Rightarrow> event" where
  "click_on h = Click \<lparr>closest_a = Some \<lparr>href = h\<rparr>\<rparr>"

definition animation_end :: "string \<Rightarrow> element \<Rightarrow> event" where
  "animation_end name el = AnimationEnd \<lparr>animationName = name, target = el, currentTarget = el\<rparr>"

text \<open>The handler took the click over: it called \<open>preventDefault\<close>.\<close>

definition intercepted :: "string \<Rightarrow> mouse_event \<Rightarrow> state \<Rightarrow> bool" where
  "intercepted origin e s =
     (case handleClick origin e s of
        Inl err \<Rightarrow> False
      | Inr (calls, s') \<Rightarrow> PreventDefault \<in> set calls)"

text \<open>No click of the run is taken over while \<open>isEntering\<close> is true.\<close>

fun calm :: "string \<Rightarrow> state \<Rightarrow> event list \<Rightarrow> bool" where
  "calm origin s [] = True"
| "calm origin s (ev # evs) =
     ((case ev of Click e \<Rightarrow> \<not> (isEntering s \<and> intercepted origin e s) | _ \<Rightarrow> True)
      \<and> calm origin (step origin ev s) evs)"

text \<open>The path does not change during the run: the run stays within one phase of exit.\<close>

fun path_kept :: "string \<Rightarrow> state \<Rightarrow> event list \<Rightarrow> bool" where
  "path_kept origin s [] = True"
| "path_kept origin s (ev # evs) =
     ((case ev of PathChange p \<Rightarrow> p = pathname s | _ \<Rightarrow> True)
      \<and> path_kept origin (step origin ev s) evs)"


text \<open>
  What holds of a mounted hook whatever happens: the wrapper element stays attached, the
  first-mount flag stays cleared, the entry listener is there exactly while \<open>isEntering\<close>, the
  exit listener exactly while \<open>isTransitioning\<close>, and a pending path is kept only while one of
  the two flags is set.
\<close>

definition mounted_inv :: "element \<Rightarrow> state \<Rightarrow> bool" where
  "mounted_inv el s =
     (wrapperRef s = Some el \<and> \<not> isFirstMount s
      \<and> enterListener s = (if isEntering s then Some el else None)
      \<and> (case exitListener s of
            None \<Rightarrow> \<not> isTransitioning s
          | Some (e, q) \<Rightarrow> e = el \<and> isTransitioning s)
      \<and> (pendingPathRef s = None \<or> isTransitioning s \<or> isEntering s))"

section \<open>Properties\<close>

subsection \<open>The URL reader and the click handler\<close>

lemma parse_url_pathname_nonempty: "parse_url h = Some u \<Longrightarrow> url_pathname u \<noteq> []"
  by (auto simp: parse_url_def Let_def split: if_splits)

lemma handleClick_cases:
  "handleClick origin e s = Inl TypeError
   \<or> handleClick origin e s = Inr ([], s)
   \<or> (\<exists>link u. closest_a e = Some link \<and> startsWith (href link) origin
         \<and> parse_url (href link) = Some u \<and> url_pathname u \<noteq> pathname s
         \<and> handleClick origin e s =
             Inr ([PreventDefault, StopPropagation, SetIsTransitioning True],
                  s\<lparr>pendingPathRef := Some (url_pathname u), isTransitioning := True\<rparr>))"
  by (auto simp: handleClick_def isNavigableLink_def isSameOriginLink_def
           split: option.splits sum.splits bool.splits error.splits)

lemma handleClick_intercepts:
  assumes "closest_a e = Some link" "startsWith (href link) origin"
    "parse_url (href link) = Some u" "url_pathname u \<noteq> pathname s"
  shows "handleClick origin e s =
           Inr ([PreventDefault, StopPropagation, SetIsTransitioning True],
                s\<lparr>pendingPathRef := Some (url_pathname u), isTransitioning := True\<rparr>)"
proof -
  have "href link \<noteq> []" using assms(3) by (auto simp: parse_url_def Let_def)
  then show ?thesis using assms
    by (simp add: handleClick_def isNavigableLink_def isSameOriginLink_def)
qed

subsection \<open>Effects change listeners only\<close>

lemma exit_effect_fields [simp]:
  "isTransitioning (exit_effect s) = isTransitioning s"
  "isEntering (exit_effect s) = isEntering s"
  "pathname (exit_effect s) = pathname s"
  "wrapperRef (exit_effect s) = wrapperRef s"
  "pendingPathRef (exit_effect s) = pendingPathRef s"
  "isFirstMount (exit_effect s) = isFirstMount s"
  "enterListener (exit_effect s) = enterListener s"
  "pushed (exit_effect s) = pushed s"
  by (simp_all add: exit_effect_def falsy_def split: option.splits)

lemma entry_effect_fields [simp]:
  "isTransitioning (entry_effect s) = isTransitioning s"
  "isEntering (entry_effect s) = isEntering s"
  "pathname (entry_effect s) = pathname s"
  "wrapperRef (entry_effect s) = wrapperRef s"
  "pendingPathRef (entry_effect s) = pendingPathRef s"
  "isFirstMount (entry_effect s) = isFirstMount s"
  "exitListener (entry_effect s) = exitListener s"
  "pushed (entry_effect s) = pushed s"
  by (simp_all add: entry_effect_def split: option.splits)

lemma commit_fields [simp]:
  "isTransitioning (commit old new) = isTransitioning new"
  "isEntering (commit old new) = isEntering new"
  "pathname (commit old new) = pathname new"
  "wrapperRef (commit old new) = wrapperRef new"
  "pendingPathRef (commit old new) = pendingPathRef new"
  "isFirstMount (commit old new) = isFirstMount new"
  "pushed (commit old new) = pushed new"
  by (simp_all add: commit_def Let_def)

lemma commit_same_flags:
  "isTransitioning new = isTransitioning old \<Longrightarrow> isEntering new = isEntering old \<Longrightarrow> commit old new = new"
  by (simp add: commit_def)

lemma dispatch_fields [simp]:
  "isTransitioning (dispatch_animationend e s) = isTransitioning s"
  "pathname (dispatch_animationend e s) = pathname s"
  "wrapperRef (dispatch_animationend e s) = wrapperRef s"
  "isFirstMount (dispatch_animationend e s) = isFirstMount s"
  "exitListener (dispatch_animationend e s) = exitListener s"
  "enterListener (dispatch_animationend e s) = enterListener s"
  by (simp_all add: dispatch_animationend_def Let_def createAnimationEndHandler_def
        exit_onComplete_def entry_onComplete_def split: option.splits prod.splits)

subsection \<open>The invariant of a mounted hook\<close>

lemma mounted_inv_mount: "mounted_inv el (mount el p)"
  by (simp add: mounted_inv_def mount_def initial_def pathname_effect_def exit_effect_def falsy_def entry_effect_def)

lemma mounted_inv_click:
  assumes "mounted_inv el s"
  shows "mounted_inv el (step origin (Click e) s)"
  using handleClick_cases [of origin e s]
proof (elim disjE exE conjE)
  assume "handleClick origin e s = Inl TypeError"
  then show ?thesis using assms by (simp add: step_def)
next
  assume "handleClick origin e s = Inr ([], s)"
  then show ?thesis using assms by (simp add: step_def commit_same_flags)
next
  fix link :: anchor and u :: url
  assume u: "parse_url (href link) = Some u"
    and h: "handleClick origin e s =
             Inr ([PreventDefault, StopPropagation, SetIsTransitioning True],
                  s\<lparr>pendingPathRef := Some (url_pathname u), isTransitioning := True\<rparr>)"
  have ne: "url_pathname u \<noteq> []" using u by (rule parse_url_pathname_nonempty)
  show ?thesis using assms h ne
    by (auto simp: step_def commit_def mounted_inv_def exit_effect_def falsy_def split: option.splits)
qed

lemma mounted_inv_animationend:
  assumes "mounted_inv el s"
  shows "mounted_inv el (step origin (AnimationEnd e) s)"
  using assms
  by (auto simp: step_def commit_def mounted_inv_def dispatch_animationend_def Let_def
        createAnimationEndHandler_def exit_onComplete_def entry_onComplete_def entry_effect_def
        SLIDE_IN_def SLIDE_OUT_def
      split: option.splits prod.splits if_splits)

lemma mounted_inv_pathchange:
  assumes "mounted_inv el s"
  shows "mounted_inv el (step origin (PathChange p) s)"
  using assms
  by (auto simp: step_def commit_def mounted_inv_def pathname_effect_def exit_effect_def falsy_def entry_effect_def
      split: option.splits prod.splits if_splits)

lemma mounted_inv_step: "mounted_inv el s \<Longrightarrow> mounted_inv el (step origin ev s)"
  by (cases ev) (simp_all add: mounted_inv_click mounted_inv_animationend mounted_inv_pathchange)

lemma mounted_inv_run: "mounted_inv el s \<Longrightarrow> mounted_inv el (run origin s evs)"
  by (induction evs arbitrary: s) (simp_all add: mounted_inv_step)

lemma reached_inv: "mounted_inv el (reached origin el p evs)"
  by (simp add: reached_def mounted_inv_run mounted_inv_mount)

lemma exitListener_commit:
  "isTransitioning new = isTransitioning old \<Longrightarrow> exitListener (commit old new) = exitListener new"
  by (simp add: commit_def Let_def entry_effect_def split: option.splits)

lemma handleClick_ignores:
  assumes "closest_a e = None
           \<or> (\<exists>link. closest_a e = Some link \<and> \<not> startsWith (href link) origin)
           \<or> (\<exists>link u. closest_a e = Some link \<and> parse_url (href link) = Some u
                 \<and> url_pathname u = pathname s)"
  shows "handleClick origin e s = Inr ([], s)" and "step origin (Click e) s = s"
proof -
  show h: "handleClick origin e s = Inr ([], s)" using assms
    by (auto simp: handleClick_def isNavigableLink_def isSameOriginLink_def)
  show "step origin (Click e) s = s" by (simp add: step_def h commit_same_flags)
qed

lemma intercepted_handleClick:
  assumes "intercepted origin e s"
  obtains link u where "closest_a e = Some link" "startsWith (href link) origin"
    "parse_url (href link) = Some u" "url_pathname u \<noteq> pathname s"
    "handleClick origin e s =
       Inr ([PreventDefault, StopPropagation, SetIsTransitioning True],
            s\<lparr>pendingPathRef := Some (url_pathname u), isTransitioning := True\<rparr>)"
  using handleClick_cases [of origin e s] assms by (auto simp: intercepted_def)

lemma run_append: "run origin s (xs @ ys) = run origin (run origin s xs) ys"
  by (induction xs arbitrary: s) simp_all

subsection \<open>Animation-end events\<close>

lemma step_animationend_unmatched:
  assumes "target e \<noteq> currentTarget e \<or> (animationName e \<noteq> SLIDE_OUT \<and> animationName e \<noteq> SLIDE_IN)"
  shows "step origin (AnimationEnd e) s = s"
proof -
  have "dispatch_animationend e s = s" using assms
    by (auto simp: dispatch_animationend_def Let_def createAnimationEndHandler_def split: option.splits)
  then show ?thesis by (simp add: step_def commit_same_flags)
qed

lemma step_animationend_pushed:
  assumes "animationName e \<noteq> SLIDE_OUT \<or> target e \<noteq> currentTarget e"
  shows "pushed (step origin (AnimationEnd e) s) = pushed s"
  using assms
  by (auto simp: step_def dispatch_animationend_def Let_def createAnimationEndHandler_def
        entry_onComplete_def split: option.splits)

lemma step_animationend_entering:
  assumes "animationName e \<noteq> SLIDE_IN \<or> target e \<noteq> currentTarget e"
  shows "isEntering (step origin (AnimationEnd e) s) = isEntering s"
    and "pendingPathRef (step origin (AnimationEnd e) s) = pendingPathRef s"
  using assms
  by (auto simp: step_def dispatch_animationend_def Let_def createAnimationEndHandler_def
        exit_onComplete_def split: option.splits)


lemma step_exit_end:
  assumes "exitListener s = Some (el, q)"
  shows "pushed (step origin (animation_end SLIDE_OUT el) s) = pushed s @ [q]"
proof -
  have ne: "SLIDE_OUT \<noteq> SLIDE_IN" by (simp add: SLIDE_OUT_def SLIDE_IN_def)
  show ?thesis using assms ne
    by (auto simp: step_def animation_end_def dispatch_animationend_def Let_def
          createAnimationEndHandler_def exit_onComplete_def split: option.splits)
qed

lemma step_entry_end:
  assumes inv: "mounted_inv el s" and en: "isEntering s"
  shows "\<not> isEntering (step origin (animation_end SLIDE_IN el) s)"
    and "pendingPathRef (step origin (animation_end SLIDE_IN el) s) = None"
    and "isTransitioning (step origin (animation_end SLIDE_IN el) s) = isTransitioning s"
    and "pushed (step origin (animation_end SLIDE_IN el) s) = pushed s"
proof -
  have ne: "SLIDE_IN \<noteq> SLIDE_OUT" by (simp add: SLIDE_OUT_def SLIDE_IN_def)
  have l: "enterListener s = Some el" using inv en by (simp add: mounted_inv_def)
  have d: "dispatch_animationend \<lparr>animationName = SLIDE_IN, target = el, currentTarget = el\<rparr> s
           = s\<lparr>isEntering := False, pendingPathRef := None\<rparr>"
    using l ne
    by (auto simp: dispatch_animationend_def Let_def createAnimationEndHandler_def
          entry_onComplete_def split: option.splits)
  show "\<not> isEntering (step origin (animation_end SLIDE_IN el) s)"
    "pendingPathRef (step origin (animation_end SLIDE_IN el) s) = None"
    "isTransitioning (step origin (animation_end SLIDE_IN el) s) = isTransitioning s"
    "pushed (step origin (animation_end SLIDE_IN el) s) = pushed s"
    by (simp_all add: step_def animation_end_def d)
qed


subsection \<open>Which events change which field\<close>

lemma step_pathchange_entering:
  assumes "\<not> isFirstMount s" "q \<noteq> pathname s"
  shows "isEntering (step origin (PathChange q) s)" "\<not> isTransitioning (step origin (PathChange q) s)"
    "pathname (step origin (PathChange q) s) = q"
    "pendingPathRef (step origin (PathChange q) s) = pendingPathRef s"
  using assms by (simp_all add: step_def pathname_effect_def)


lemma step_clears_pending:
  assumes "pendingPathRef s \<noteq> None" "pendingPathRef (step origin ev s) = None"
  shows "\<exists>e. ev = AnimationEnd e \<and> animationName e = SLIDE_IN \<and> target e = currentTarget e
             \<and> enterListener s = Some (currentTarget e) \<and> \<not> isEntering (step origin ev s)"
proof (cases ev)
  case (Click e)
  then show ?thesis using assms handleClick_cases [of origin e s]
    by (auto simp: step_def)
next
  case (AnimationEnd e)
  then show ?thesis using assms
    by (auto simp: step_def dispatch_animationend_def Let_def createAnimationEndHandler_def
          exit_onComplete_def entry_onComplete_def split: option.splits if_splits)
next
  case (PathChange p)
  then show ?thesis using assms by (auto simp: step_def pathname_effect_def split: if_splits)
qed

lemma step_sets_pending:
  assumes "pendingPathRef (step origin ev s) \<noteq> pendingPathRef s" "pendingPathRef (step origin ev s) \<noteq> None"
  shows "\<exists>e. ev = Click e \<and> intercepted origin e s \<and> isTransitioning (step origin ev s)"
proof (cases ev)
  case (Click e)
  then show ?thesis using assms handleClick_cases [of origin e s]
    by (auto simp: step_def intercepted_def)
next
  case (AnimationEnd e)
  then show ?thesis using assms
    by (auto simp: step_def dispatch_animationend_def Let_def createAnimationEndHandler_def
          exit_onComplete_def entry_onComplete_def split: option.splits if_splits)
next
  case (PathChange p)
  then show ?thesis using assms by (auto simp: step_def pathname_effect_def split: if_splits)
qed

section \<open>The claims\<close>

subsection \<open>Clicks\<close>

text \<open>
  C1. The claim: a click with no enclosing anchor, or on a link that is not same-origin, or on
  a link to the current path, leaves the state alone and cancels nothing. The handler decides
  "same origin" by \<open>href.startsWith(window.location.origin)\<close>, and a destination on another port
  whose digits extend the document's port passes that test. On a document at
  \<open>http://localhost:3000\<close>, path \<open>/\<close>, a click on a link to \<open>http://localhost:30001/sample\<close>
  (another port, so another origin) is taken over: \<open>preventDefault\<close> and \<open>stopPropagation\<close> are
  called, \<open>/sample\<close> is recorded and \<open>isTransitioning\<close> is set.
  (\<open>handleClick_ignores\<close> covers the three cases in which the handler does leave the click
  alone: no anchor, an \<open>href\<close> that does not start with the origin string, the current path.)
\<close>

theorem cross_origin_click_intercepted:
  "\<not> same_origin ''http://localhost:3000'' ''http://localhost:30001/sample''
   \<and> handleClick ''http://localhost:3000''
        \<lparr>closest_a = Some \<lparr>href = ''http://localhost:30001/sample''\<rparr>\<rparr> (mount 0 ''/'')
       = Inr ([PreventDefault, StopPropagation, SetIsTransitioning True],
              (mount 0 ''/'')\<lparr>pendingPathRef := Some ''/sample'', isTransitioning := True\<rparr>)"
  by code_simp

theorem cross_origin_click_intercepted_witness:
  "intercepted ''http://localhost:3000''
     \<lparr>closest_a = Some \<lparr>href = ''http://localhost:30001/sample''\<rparr>\<rparr> (mount 0 ''/'')
   \<and> pendingPathRef (step ''http://localhost:3000''
        (Click \<lparr>closest_a = Some \<lparr>href = ''http://localhost:30001/sample''\<rparr>\<rparr>) (mount 0 ''/''))
       = Some ''/sample''"
  using cross_origin_click_intercepted by (simp add: intercepted_def step_def)

text \<open>
  C2. The claim: every click on a same-origin link to another path is taken over (default and
  propagation cancelled, the path recorded, \<open>isTransitioning\<close> set, once). The same prefix test
  lets a same-origin link through when its \<open>href\<close> carries user information: on a document at
  \<open>http://localhost:3000\<close>, path \<open>/\<close>, the link \<open>http://user@localhost:3000/sample\<close> has the
  document's scheme, host and port and the path \<open>/sample\<close>, but its \<open>href\<close> does not start with
  the origin string, and the handler leaves the click alone.
  (\<open>handleClick_intercepts\<close> is the handler's behaviour on an \<open>href\<close> that does start with the
  origin string.)
\<close>

theorem same_origin_click_with_userinfo_ignored:
  "same_origin ''http://localhost:3000'' ''http://user@localhost:3000/sample''
   \<and> map_option url_pathname (parse_url ''http://user@localhost:3000/sample'') = Some ''/sample''
   \<and> pathname (mount 0 ''/'') = ''/''
   \<and> handleClick ''http://localhost:3000''
        \<lparr>closest_a = Some \<lparr>href = ''http://user@localhost:3000/sample''\<rparr>\<rparr> (mount 0 ''/'')
       = Inr ([], mount 0 ''/'')"
  by code_simp

theorem same_origin_click_with_userinfo_ignored_witness:
  "\<not> intercepted ''http://localhost:3000''
     \<lparr>closest_a = Some \<lparr>href = ''http://user@localhost:3000/sample''\<rparr>\<rparr> (mount 0 ''/'')
   \<and> step ''http://localhost:3000''
        (Click \<lparr>closest_a = Some \<lparr>href = ''http://user@localhost:3000/sample''\<rparr>\<rparr>) (mount 0 ''/'')
       = mount 0 ''/''"
  using same_origin_click_with_userinfo_ignored
  by (simp add: intercepted_def step_def commit_same_flags)

subsection \<open>The exit phase\<close>

text \<open>
  C3, as stated: after the exit animation ends, \<open>router.push\<close> is called with the last recorded
  pending path, also when a second click overwrote it during the exit phase. It fails: the exit
  effect reads \<open>pendingPathRef.current\<close> into \<open>targetPath\<close> when \<open>isTransitioning\<close> turns true,
  and a second click sets \<open>isTransitioning\<close> to the value it has, so the effect does not run
  again. After clicks on \<open>/a\<close> and then \<open>/b\<close> the pending path is \<open>/b\<close> and the navigation goes
  to \<open>/a\<close>.
\<close>

theorem stale_target_counterexample:
  "pendingPathRef (reached ''http://localhost:3000'' 0 ''/''
      [click_on ''http://localhost:3000/a'', click_on ''http://localhost:3000/b'']) = Some ''/b''
   \<and> pushed (reached ''http://localhost:3000'' 0 ''/''
      [click_on ''http://localhost:3000/a'', click_on ''http://localhost:3000/b'']) = []
   \<and> pushed (step ''http://localhost:3000'' (animation_end SLIDE_OUT 0)
       (reached ''http://localhost:3000'' 0 ''/''
          [click_on ''http://localhost:3000/a'', click_on ''http://localhost:3000/b''])) = [''/a'']"
  by code_simp

lemma step_first_click:
  assumes inv: "mounted_inv el s" and nt: "\<not> isTransitioning s"
    and i: "intercepted origin e s"
    and q: "pendingPathRef (step origin (Click e) s) = Some q"
  shows "exitListener (step origin (Click e) s) = Some (el, q)"
    and "isTransitioning (step origin (Click e) s)"
    and "pushed (step origin (Click e) s) = pushed s"
proof -
  from i obtain link :: anchor and u :: url where u: "parse_url (href link) = Some u"
    and h: "handleClick origin e s =
             Inr ([PreventDefault, StopPropagation, SetIsTransitioning True],
                  s\<lparr>pendingPathRef := Some (url_pathname u), isTransitioning := True\<rparr>)"
    by (rule intercepted_handleClick) blast
  have ne: "url_pathname u \<noteq> []" using u by (rule parse_url_pathname_nonempty)
  have w: "wrapperRef s = Some el" using inv by (simp add: mounted_inv_def)
  have qu: "q = url_pathname u" using q h by (simp add: step_def)
  show "exitListener (step origin (Click e) s) = Some (el, q)"
    using h nt ne w qu by (simp add: step_def commit_def Let_def exit_effect_def falsy_def entry_effect_def)
  show "isTransitioning (step origin (Click e) s)" using h by (simp add: step_def)
  show "pushed (step origin (Click e) s) = pushed s" using h by (simp add: step_def)
qed

lemma step_later_click:
  assumes "isTransitioning s"
  shows "exitListener (step origin (Click e) s) = exitListener s"
    and "isTransitioning (step origin (Click e) s)"
    and "pushed (step origin (Click e) s) = pushed s"
  using handleClick_cases [of origin e s] assms
  by (auto simp: step_def exitListener_commit)

lemma step_in_exit_phase:
  assumes l: "exitListener s = Some (el, q)" and t: "isTransitioning s"
    and k: "case ev of PathChange p \<Rightarrow> p = pathname s | _ \<Rightarrow> True"
  shows "exitListener (step origin ev s) = Some (el, q)" and "isTransitioning (step origin ev s)"
proof -
  have "exitListener (step origin ev s) = Some (el, q) \<and> isTransitioning (step origin ev s)"
  proof (cases ev)
    case (Click e)
    then show ?thesis using step_later_click(1,2) [OF t, of origin e] l by simp
  next
    case (AnimationEnd e)
    then show ?thesis using l t by (simp add: step_def exitListener_commit)
  next
    case (PathChange p)
    then show ?thesis using l t k by (simp add: step_def)
  qed
  then show "exitListener (step origin ev s) = Some (el, q)" and "isTransitioning (step origin ev s)"
    by simp_all
qed

lemma run_in_exit_phase:
  assumes "exitListener s = Some (el, q)" "isTransitioning s" "path_kept origin s evs"
  shows "exitListener (run origin s evs) = Some (el, q)"
  using assms
proof (induction evs arbitrary: s)
  case Nil
  then show ?case by simp
next
  case (Cons ev evs)
  have k: "case ev of PathChange p \<Rightarrow> p = pathname s | _ \<Rightarrow> True"
    using Cons.prems(3) by simp
  show ?case
    using Cons.IH [OF step_in_exit_phase [OF Cons.prems(1,2) k, of origin]] Cons.prems(3)
    by simp
qed

text \<open>
  C3, amended: when the exit animation ends, the navigation is requested with the pending path
  recorded by the click that started the exit phase (the one that turned \<open>isTransitioning\<close>
  from false to true). Whatever happens before the path changes does not alter the path that
  is requested: a click taken over later in the same exit phase overwrites the pending path,
  the end of an entry animation that is still running empties it, and the request still goes
  to the path recorded first. (Events are handled one task each, with the render in between,
  as the clicks of a user are.)
\<close>

theorem navigation_uses_captured_target:
  assumes "\<not> isTransitioning (reached origin el p evs)"
    and "intercepted origin e (reached origin el p evs)"
    and "pendingPathRef (step origin (Click e) (reached origin el p evs)) = Some q"
    and "path_kept origin (step origin (Click e) (reached origin el p evs)) mid"
  shows "pushed (run origin (reached origin el p evs) (Click e # mid @ [animation_end SLIDE_OUT el]))
         = pushed (run origin (reached origin el p evs) (Click e # mid)) @ [q]"
proof -
  let ?s = "reached origin el p evs"
  let ?s1 = "step origin (Click e) ?s"
  let ?s2 = "run origin ?s1 mid"
  have f: "exitListener ?s1 = Some (el, q)" "isTransitioning ?s1"
    using step_first_click(1,2) [OF reached_inv assms(1,2,3)] by simp_all
  have l: "exitListener ?s2 = Some (el, q)"
    using f assms(4) by (rule run_in_exit_phase)
  have "run origin ?s (Click e # mid @ [animation_end SLIDE_OUT el])
        = step origin (animation_end SLIDE_OUT el) ?s2"
    by (simp add: run_append)
  then show ?thesis using step_exit_end [OF l, of origin] by simp
qed

theorem navigation_uses_captured_target_witness:
  "\<not> isTransitioning (reached ''http://localhost:3000'' 0 ''/''
        [click_on ''http://localhost:3000/sample'', animation_end SLIDE_OUT 0, PathChange ''/sample''])
   \<and> intercepted ''http://localhost:3000'' \<lparr>closest_a = Some \<lparr>href = ''http://localhost:3000/''\<rparr>\<rparr>
        (reached ''http://localhost:3000'' 0 ''/''
          [click_on ''http://localhost:3000/sample'', animation_end SLIDE_OUT 0, PathChange ''/sample''])
   \<and> pendingPathRef (step ''http://localhost:3000''
        (Click \<lparr>closest_a = Some \<lparr>href = ''http://localhost:3000/''\<rparr>\<rparr>)
        (reached ''http://localhost:3000'' 0 ''/''
          [click_on ''http://localhost:3000/sample'', animation_end SLIDE_OUT 0, PathChange ''/sample'']))
       = Some ''/''
   \<and> path_kept ''http://localhost:3000'' (step ''http://localhost:3000''
        (Click \<lparr>closest_a = Some \<lparr>href = ''http://localhost:3000/''\<rparr>\<rparr>)
        (reached ''http://localhost:3000'' 0 ''/''
          [click_on ''http://localhost:3000/sample'', animation_end SLIDE_OUT 0, PathChange ''/sample'']))
        [animation_end SLIDE_IN 0, click_on ''http://localhost:3000/b'']
   \<and> pendingPathRef (run ''http://localhost:3000''
        (reached ''http://localhost:3000'' 0 ''/''
          [click_on ''http://localhost:3000/sample'', animation_end SLIDE_OUT 0, PathChange ''/sample''])
        (Click \<lparr>closest_a = Some \<lparr>href = ''http://localhost:3000/''\<rparr>\<rparr>
         # [animation_end SLIDE_IN 0, click_on ''http://localhost:3000/b''])) = Some ''/b''
   \<and> pushed (run ''http://localhost:3000''
        (reached ''http://localhost:3000'' 0 ''/''
          [click_on ''http://localhost:3000/sample'', animation_end SLIDE_OUT 0, PathChange ''/sample''])
        (Click \<lparr>closest_a = Some \<lparr>href = ''http://localhost:3000/''\<rparr>\<rparr>
         # [animation_end SLIDE_IN 0, click_on ''http://localhost:3000/b'']
         @ [animation_end SLIDE_OUT 0]))
      = pushed (run ''http://localhost:3000''
        (reached ''http://localhost:3000'' 0 ''/''
          [click_on ''http://localhost:3000/sample'', animation_end SLIDE_OUT 0, PathChange ''/sample''])
        (Click \<lparr>closest_a = Some \<lparr>href = ''http://localhost:3000/''\<rparr>\<rparr>
         # [animation_end SLIDE_IN 0, click_on ''http://localhost:3000/b''])) @ [''/'']"
proof -
  let ?o = "''http://localhost:3000''"
  let ?c = "\<lparr>closest_a = Some \<lparr>href = ''http://localhost:3000/''\<rparr>\<rparr>"
  let ?en = "reached ?o 0 ''/''
          [click_on ''http://localhost:3000/sample'', animation_end SLIDE_OUT 0, PathChange ''/sample'']"
  let ?mid = "[animation_end SLIDE_IN 0, click_on ''http://localhost:3000/b'']"
  have h1: "\<not> isTransitioning ?en" by code_simp
  have h2: "intercepted ?o ?c ?en" by code_simp
  have h3: "pendingPathRef (step ?o (Click ?c) ?en) = Some ''/''" by code_simp
  have h4: "path_kept ?o (step ?o (Click ?c) ?en) ?mid" by code_simp
  have a: "pendingPathRef (run ?o ?en (Click ?c # ?mid)) = Some ''/b''" by code_simp
  note t = navigation_uses_captured_target [OF h1 h2 h3 h4]
  show ?thesis by (intro conjI) (rule h1 h2 h3 h4 a t)+
qed

subsection \<open>The two flags\<close>

text \<open>
  C4, as stated: in every reachable state \<open>isTransitioning\<close> and \<open>isEntering\<close> are not both true.
  It fails: nothing stops a click during the entry phase. After a full exit to \<open>/sample\<close>, a
  click on the link back to \<open>/\<close> while the entry animation still runs sets \<open>isTransitioning\<close>
  with \<open>isEntering\<close> still true.
\<close>

theorem both_flags_counterexample:
  "isTransitioning (reached ''http://localhost:3000'' 0 ''/''
      [click_on ''http://localhost:3000/sample'', animation_end SLIDE_OUT 0,
       PathChange ''/sample'', click_on ''http://localhost:3000/''])
   \<and> isEntering (reached ''http://localhost:3000'' 0 ''/''
      [click_on ''http://localhost:3000/sample'', animation_end SLIDE_OUT 0,
       PathChange ''/sample'', click_on ''http://localhost:3000/''])"
  by code_simp

lemma step_flags_exclusive:
  assumes "\<not> (isTransitioning s \<and> isEntering s)"
    and "case ev of Click e \<Rightarrow> \<not> (isEntering s \<and> intercepted origin e s) | _ \<Rightarrow> True"
  shows "\<not> (isTransitioning (step origin ev s) \<and> isEntering (step origin ev s))"
proof (cases ev)
  case (Click e)
  then show ?thesis using assms handleClick_cases [of origin e s]
    by (auto simp: step_def intercepted_def)
next
  case (AnimationEnd e)
  then show ?thesis using assms
    by (auto simp: step_def dispatch_animationend_def Let_def createAnimationEndHandler_def
          exit_onComplete_def entry_onComplete_def split: option.splits if_splits)
next
  case (PathChange q)
  then show ?thesis using assms by (auto simp: step_def pathname_effect_def)
qed

lemma run_flags_exclusive:
  assumes "\<not> (isTransitioning s \<and> isEntering s)" "calm origin s evs"
  shows "\<not> (isTransitioning (run origin s evs) \<and> isEntering (run origin s evs))"
  using assms
proof (induction evs arbitrary: s)
  case Nil
  then show ?case by simp
next
  case (Cons ev evs)
  have "\<not> (isTransitioning (step origin ev s) \<and> isEntering (step origin ev s))"
    using Cons.prems by (intro step_flags_exclusive) simp_all
  then show ?case using Cons.IH [of "step origin ev s"] Cons.prems by simp
qed

text \<open>
  C4, amended: \<open>isTransitioning\<close> and \<open>isEntering\<close> are never both true in a state reached by a
  run in which no click is taken over while \<open>isEntering\<close> is true; in the idle state after the
  mount both are false.
\<close>

theorem flags_exclusive_when_calm:
  assumes "calm origin (mount el p) evs"
  shows "\<not> (isTransitioning (reached origin el p evs) \<and> isEntering (reached origin el p evs))
         \<and> \<not> isTransitioning (mount el p) \<and> \<not> isEntering (mount el p)"
proof -
  have m: "\<not> isTransitioning (mount el p) \<and> \<not> isEntering (mount el p)"
    by (simp add: mount_def initial_def pathname_effect_def)
  then show ?thesis using run_flags_exclusive [OF _ assms] by (simp add: reached_def)
qed

theorem flags_exclusive_when_calm_witness:
  "calm ''http://localhost:3000'' (mount 0 ''/'')
      [click_on ''http://localhost:3000/sample'', animation_end SLIDE_OUT 0, PathChange ''/sample'']
   \<and> \<not> (isTransitioning (reached ''http://localhost:3000'' 0 ''/''
           [click_on ''http://localhost:3000/sample'', animation_end SLIDE_OUT 0, PathChange ''/sample''])
        \<and> isEntering (reached ''http://localhost:3000'' 0 ''/''
           [click_on ''http://localhost:3000/sample'', animation_end SLIDE_OUT 0, PathChange ''/sample'']))
   \<and> isEntering (reached ''http://localhost:3000'' 0 ''/''
           [click_on ''http://localhost:3000/sample'', animation_end SLIDE_OUT 0, PathChange ''/sample''])"
proof -
  have h: "calm ''http://localhost:3000'' (mount 0 ''/'')
      [click_on ''http://localhost:3000/sample'', animation_end SLIDE_OUT 0, PathChange ''/sample'']"
    by code_simp
  have e: "isEntering (reached ''http://localhost:3000'' 0 ''/''
           [click_on ''http://localhost:3000/sample'', animation_end SLIDE_OUT 0, PathChange ''/sample''])"
    by code_simp
  show ?thesis using flags_exclusive_when_calm [OF h] h e by blast
qed

subsection \<open>The round trip\<close>







subsection \<open>Filtering of animation-end events\<close>

text \<open>
  C6. An \<open>animationend\<close> event whose name is not the expected one, or whose target is not the
  element the listener is on, has no effect: the handler made by \<open>createAnimationEndHandler\<close>
  returns without calling \<open>onComplete\<close>; in a step of the hook, an event that does not match
  \<open>maskFadeOut\<close> on the element itself requests no navigation, one that does not match
  \<open>maskFadeIn\<close> on the element itself resets neither \<open>isEntering\<close> nor the pending path, and one
  that matches neither leaves the whole state as it was.
\<close>

theorem animationend_filter:
  "(animationName e \<noteq> name \<or> target e \<noteq> currentTarget e
      \<longrightarrow> createAnimationEndHandler name onComplete e s = s)
   \<and> (animationName e \<noteq> SLIDE_OUT \<or> target e \<noteq> currentTarget e
      \<longrightarrow> pushed (step origin (AnimationEnd e) s) = pushed s)
   \<and> (animationName e \<noteq> SLIDE_IN \<or> target e \<noteq> currentTarget e
      \<longrightarrow> isEntering (step origin (AnimationEnd e) s) = isEntering s
          \<and> pendingPathRef (step origin (AnimationEnd e) s) = pendingPathRef s)
   \<and> (target e \<noteq> currentTarget e \<or> (animationName e \<noteq> SLIDE_OUT \<and> animationName e \<noteq> SLIDE_IN)
      \<longrightarrow> step origin (AnimationEnd e) s = s)"
proof (intro conjI impI)
  assume "animationName e \<noteq> name \<or> target e \<noteq> currentTarget e"
  then show "createAnimationEndHandler name onComplete e s = s"
    by (auto simp: createAnimationEndHandler_def)
qed (simp_all add: step_animationend_unmatched step_animationend_pushed step_animationend_entering)

theorem animationend_filter_witness:
  "target \<lparr>animationName = ''maskFadeOut'', target = 1, currentTarget = 0\<rparr>
     \<noteq> currentTarget \<lparr>animationName = ''maskFadeOut'', target = 1, currentTarget = 0\<rparr>
   \<and> exitListener (reached ''http://localhost:3000'' 0 ''/'' [click_on ''http://localhost:3000/sample''])
       = Some (0, ''/sample'')
   \<and> createAnimationEndHandler SLIDE_OUT (exit_onComplete ''/sample'')
        \<lparr>animationName = ''maskFadeOut'', target = 1, currentTarget = 0\<rparr>
        (reached ''http://localhost:3000'' 0 ''/'' [click_on ''http://localhost:3000/sample''])
       = reached ''http://localhost:3000'' 0 ''/'' [click_on ''http://localhost:3000/sample'']
   \<and> pushed (step ''http://localhost:3000''
        (AnimationEnd \<lparr>animationName = ''maskFadeOut'', target = 1, currentTarget = 0\<rparr>)
        (reached ''http://localhost:3000'' 0 ''/'' [click_on ''http://localhost:3000/sample'']))
       = pushed (reached ''http://localhost:3000'' 0 ''/'' [click_on ''http://localhost:3000/sample''])
   \<and> pendingPathRef (step ''http://localhost:3000''
        (AnimationEnd \<lparr>animationName = ''maskFadeOut'', target = 1, currentTarget = 0\<rparr>)
        (reached ''http://localhost:3000'' 0 ''/'' [click_on ''http://localhost:3000/sample'']))
       = pendingPathRef (reached ''http://localhost:3000'' 0 ''/'' [click_on ''http://localhost:3000/sample''])
   \<and> step ''http://localhost:3000''
        (AnimationEnd \<lparr>animationName = ''maskFadeOut'', target = 1, currentTarget = 0\<rparr>)
        (reached ''http://localhost:3000'' 0 ''/'' [click_on ''http://localhost:3000/sample''])
       = reached ''http://localhost:3000'' 0 ''/'' [click_on ''http://localhost:3000/sample'']"
proof -
  let ?e = "\<lparr>animationName = ''maskFadeOut'', target = 1, currentTarget = 0\<rparr>"
  let ?s = "reached ''http://localhost:3000'' 0 ''/'' [click_on ''http://localhost:3000/sample'']"
  have h: "target ?e \<noteq> currentTarget ?e" by simp
  have l: "exitListener ?s = Some (0, ''/sample'')" by code_simp
  note t = animationend_filter [of ?e SLIDE_OUT "exit_onComplete ''/sample''" ?s "''http://localhost:3000''"]
  have c1: "createAnimationEndHandler SLIDE_OUT (exit_onComplete ''/sample'') ?e ?s = ?s"
    by (rule t [THEN conjunct1, THEN mp, OF disjI2, OF h])
  have c2: "pushed (step ''http://localhost:3000'' (AnimationEnd ?e) ?s) = pushed ?s"
    by (rule t [THEN conjunct2, THEN conjunct1, THEN mp, OF disjI2, OF h])
  have c3: "isEntering (step ''http://localhost:3000'' (AnimationEnd ?e) ?s) = isEntering ?s
            \<and> pendingPathRef (step ''http://localhost:3000'' (AnimationEnd ?e) ?s) = pendingPathRef ?s"
    by (rule t [THEN conjunct2, THEN conjunct2, THEN conjunct1, THEN mp, OF disjI2, OF h])
  have c4: "step ''http://localhost:3000'' (AnimationEnd ?e) ?s = ?s"
    by (rule t [THEN conjunct2, THEN conjunct2, THEN conjunct2, THEN mp, OF disjI1, OF h])
  show ?thesis by (intro conjI) (rule h l c1 c2 c3 [THEN conjunct2] c4)+
qed

subsection \<open>The first mount\<close>

text \<open>
  C7. The first mount starts no entry animation, whatever the path: after it \<open>isEntering\<close> is
  false and no entry listener is registered. The first-mount flag is true before the mount,
  false after it, and false in every state reached later; from every such state a change of
  path sets \<open>isEntering\<close>.
\<close>

theorem first_mount_flag:
  "isFirstMount (initial p) \<and> \<not> isEntering (mount el p) \<and> enterListener (mount el p) = None
   \<and> \<not> isFirstMount (mount el p)
   \<and> \<not> isFirstMount (reached origin el p evs)
   \<and> (q \<noteq> pathname (reached origin el p evs)
        \<longrightarrow> isEntering (step origin (PathChange q) (reached origin el p evs)))"
proof -
  have m: "\<not> isFirstMount (reached origin el p evs)"
    using reached_inv [of el origin p evs] by (simp add: mounted_inv_def)
  have "isFirstMount (initial p)" by (simp add: initial_def)
  moreover have "\<not> isEntering (mount el p) \<and> enterListener (mount el p) = None \<and> \<not> isFirstMount (mount el p)"
    using mounted_inv_mount [of el p]
    by (simp add: mounted_inv_def mount_def initial_def pathname_effect_def)
  ultimately show ?thesis using m step_pathchange_entering(1) [OF m] by blast
qed

theorem first_mount_flag_witness:
  "''/sample'' \<noteq> pathname (reached ''http://localhost:3000'' 0 ''/'' [])
   \<and> \<not> isEntering (mount 0 ''/'')
   \<and> \<not> isFirstMount (reached ''http://localhost:3000'' 0 ''/'' [])
   \<and> isEntering (step ''http://localhost:3000'' (PathChange ''/sample'') (reached ''http://localhost:3000'' 0 ''/'' []))"
proof -
  have h: "''/sample'' \<noteq> pathname (reached ''http://localhost:3000'' 0 ''/'' [])" by code_simp
  note t = first_mount_flag [of "''/''" 0 "''http://localhost:3000''" "[]" "''/sample''"]
  show ?thesis
    by (intro conjI) (rule h t [THEN conjunct2, THEN conjunct1]
        t [THEN conjunct2, THEN conjunct2, THEN conjunct2, THEN conjunct2, THEN conjunct1]
        t [THEN conjunct2, THEN conjunct2, THEN conjunct2, THEN conjunct2, THEN conjunct2, THEN mp, OF h])+
qed

subsection \<open>Who clears what\<close>



subsection \<open>The pending path\<close>

text \<open>
  C9. In every state a mounted hook reaches, a pending path is there only while
  \<open>isTransitioning\<close> or \<open>isEntering\<close> is true. A step gives the pending path a new value only
  when a click is taken over, and \<open>isTransitioning\<close> is true after it; every click that is
  taken over leaves a pending path and \<open>isTransitioning\<close> true. A step empties the pending path
  only on a \<open>maskFadeIn\<close> completion received by the entry listener, and \<open>isEntering\<close> is false
  after it; and whenever \<open>isEntering\<close> is true, the end of the entry animation on the wrapper
  empties the pending path and clears \<open>isEntering\<close>.
\<close>

theorem pending_target_lifetime:
  "(pendingPathRef (reached origin el p evs) \<noteq> None
      \<longrightarrow> isTransitioning (reached origin el p evs) \<or> isEntering (reached origin el p evs))
   \<and> (pendingPathRef (step origin ev s) \<noteq> pendingPathRef s \<and> pendingPathRef (step origin ev s) \<noteq> None
      \<longrightarrow> (\<exists>e. ev = Click e \<and> intercepted origin e s \<and> isTransitioning (step origin ev s)))
   \<and> (intercepted origin c s1
      \<longrightarrow> pendingPathRef (step origin (Click c) s1) \<noteq> None \<and> isTransitioning (step origin (Click c) s1))
   \<and> (pendingPathRef s2 \<noteq> None \<and> pendingPathRef (step origin ev2 s2) = None
      \<longrightarrow> (\<exists>e. ev2 = AnimationEnd e \<and> animationName e = SLIDE_IN \<and> target e = currentTarget e
               \<and> enterListener s2 = Some (currentTarget e) \<and> \<not> isEntering (step origin ev2 s2)))
   \<and> (isEntering (reached origin el p evs3)
      \<longrightarrow> pendingPathRef (step origin (animation_end SLIDE_IN el) (reached origin el p evs3)) = None
          \<and> \<not> isEntering (step origin (animation_end SLIDE_IN el) (reached origin el p evs3)))"
proof (intro conjI impI)
  assume "pendingPathRef (reached origin el p evs) \<noteq> None"
  then show "isTransitioning (reached origin el p evs) \<or> isEntering (reached origin el p evs)"
    using reached_inv [of el origin p evs] by (auto simp: mounted_inv_def)
next
  assume "pendingPathRef (step origin ev s) \<noteq> pendingPathRef s \<and> pendingPathRef (step origin ev s) \<noteq> None"
  then show "\<exists>e. ev = Click e \<and> intercepted origin e s \<and> isTransitioning (step origin ev s)"
    using step_sets_pending [of origin ev s] by blast
next
  assume i: "intercepted origin c s1"
  from i obtain link :: anchor and u :: url where
    h: "handleClick origin c s1 =
             Inr ([PreventDefault, StopPropagation, SetIsTransitioning True],
                  s1\<lparr>pendingPathRef := Some (url_pathname u), isTransitioning := True\<rparr>)"
    by (rule intercepted_handleClick) blast
  show "pendingPathRef (step origin (Click c) s1) \<noteq> None" using h by (simp add: step_def)
  show "isTransitioning (step origin (Click c) s1)" using h by (simp add: step_def)
next
  assume "pendingPathRef s2 \<noteq> None \<and> pendingPathRef (step origin ev2 s2) = None"
  then show "\<exists>e. ev2 = AnimationEnd e \<and> animationName e = SLIDE_IN \<and> target e = currentTarget e
               \<and> enterListener s2 = Some (currentTarget e) \<and> \<not> isEntering (step origin ev2 s2)"
    using step_clears_pending [of s2 origin ev2] by blast
next
  assume e: "isEntering (reached origin el p evs3)"
  show "pendingPathRef (step origin (animation_end SLIDE_IN el) (reached origin el p evs3)) = None"
    using step_entry_end(2) [OF reached_inv e] .
  show "\<not> isEntering (step origin (animation_end SLIDE_IN el) (reached origin el p evs3))"
    using step_entry_end(1) [OF reached_inv e] .
qed

theorem pending_target_lifetime_witness:
  "pendingPathRef (reached ''http://localhost:3000'' 0 ''/'' [click_on ''http://localhost:3000/sample'']) \<noteq> None
   \<and> (isTransitioning (reached ''http://localhost:3000'' 0 ''/'' [click_on ''http://localhost:3000/sample''])
      \<or> isEntering (reached ''http://localhost:3000'' 0 ''/'' [click_on ''http://localhost:3000/sample'']))
   \<and> intercepted ''http://localhost:3000'' \<lparr>closest_a = Some \<lparr>href = ''http://localhost:3000/sample''\<rparr>\<rparr> (mount 0 ''/'')
   \<and> pendingPathRef (step ''http://localhost:3000''
        (Click \<lparr>closest_a = Some \<lparr>href = ''http://localhost:3000/sample''\<rparr>\<rparr>) (mount 0 ''/''))
        \<noteq> pendingPathRef (mount 0 ''/'')
   \<and> isTransitioning (step ''http://localhost:3000''
        (Click \<lparr>closest_a = Some \<lparr>href = ''http://localhost:3000/sample''\<rparr>\<rparr>) (mount 0 ''/''))
   \<and> isEntering (reached ''http://localhost:3000'' 0 ''/''
        [click_on ''http://localhost:3000/sample'', animation_end SLIDE_OUT 0, PathChange ''/sample''])
   \<and> pendingPathRef (reached ''http://localhost:3000'' 0 ''/''
        [click_on ''http://localhost:3000/sample'', animation_end SLIDE_OUT 0, PathChange ''/sample'']) \<noteq> None
   \<and> pendingPathRef (step ''http://localhost:3000'' (animation_end SLIDE_IN 0)
        (reached ''http://localhost:3000'' 0 ''/''
          [click_on ''http://localhost:3000/sample'', animation_end SLIDE_OUT 0, PathChange ''/sample''])) = None
   \<and> \<not> isEntering (step ''http://localhost:3000'' (animation_end SLIDE_IN 0)
        (reached ''http://localhost:3000'' 0 ''/''
          [click_on ''http://localhost:3000/sample'', animation_end SLIDE_OUT 0, PathChange ''/sample'']))"
proof -
  let ?o = "''http://localhost:3000''"
  let ?c = "\<lparr>closest_a = Some \<lparr>href = ''http://localhost:3000/sample''\<rparr>\<rparr>"
  let ?ex = "reached ?o 0 ''/'' [click_on ''http://localhost:3000/sample'']"
  let ?en = "reached ?o 0 ''/''
          [click_on ''http://localhost:3000/sample'', animation_end SLIDE_OUT 0, PathChange ''/sample'']"
  have h1: "pendingPathRef ?ex \<noteq> None" by code_simp
  have h2: "pendingPathRef (step ?o (Click ?c) (mount 0 ''/'')) \<noteq> pendingPathRef (mount 0 ''/'')
            \<and> pendingPathRef (step ?o (Click ?c) (mount 0 ''/'')) \<noteq> None"
    by code_simp
  have h3: "intercepted ?o ?c (mount 0 ''/'')" by code_simp
  have h4: "pendingPathRef ?en \<noteq> None
            \<and> pendingPathRef (step ?o (animation_end SLIDE_IN 0) ?en) = None"
    by code_simp
  have h5: "isEntering ?en" by code_simp
  note t = pending_target_lifetime [of ?o 0 "''/''" "[click_on ''http://localhost:3000/sample'']"
      "Click ?c" "mount 0 ''/''" ?c "mount 0 ''/''"
      ?en "animation_end SLIDE_IN 0"
      "[click_on ''http://localhost:3000/sample'', animation_end SLIDE_OUT 0, PathChange ''/sample'']"]
  have c1: "isTransitioning ?ex \<or> isEntering ?ex"
    by (rule t [THEN conjunct1, THEN mp, OF h1])
  have c2: "isTransitioning (step ?o (Click ?c) (mount 0 ''/''))"
    using t [THEN conjunct2, THEN conjunct1, THEN mp, OF h2] by (elim exE conjE)
  have c3: "pendingPathRef (step ?o (Click ?c) (mount 0 ''/'')) \<noteq> None
            \<and> isTransitioning (step ?o (Click ?c) (mount 0 ''/''))"
    by (rule t [THEN conjunct2, THEN conjunct2, THEN conjunct1, THEN mp, OF h3])
  have c4: "\<not> isEntering (step ?o (animation_end SLIDE_IN 0) ?en)"
    using t [THEN conjunct2, THEN conjunct2, THEN conjunct2, THEN conjunct1, THEN mp, OF h4]
    by (elim exE conjE)
  have c5: "pendingPathRef (step ?o (animation_end SLIDE_IN 0) ?en) = None
            \<and> \<not> isEntering (step ?o (animation_end SLIDE_IN 0) ?en)"
    by (rule t [THEN conjunct2, THEN conjunct2, THEN conjunct2, THEN conjunct2, THEN mp, OF h5])
  show ?thesis
    by (intro conjI) (rule h1 c1 h3 h2 [THEN conjunct1] c2 h5 h4 [THEN conjunct1]
        c5 [THEN conjunct1] c4)+
qed

subsection \<open>An exit phase without a target\<close>

lemma run_animationends_no_listener:
  assumes "exitListener s = None"
  shows "pushed (run origin s (map AnimationEnd es)) = pushed s
         \<and> isTransitioning (run origin s (map AnimationEnd es)) = isTransitioning s
         \<and> exitListener (run origin s (map AnimationEnd es)) = None"
  using assms
proof (induction es arbitrary: s)
  case Nil
  then show ?case by simp
next
  case (Cons e es)
  have l: "exitListener (step origin (AnimationEnd e) s) = None"
    using Cons.prems by (simp add: step_def exitListener_commit)
  have p: "pushed (step origin (AnimationEnd e) s) = pushed s"
    using Cons.prems
    by (auto simp: step_def dispatch_animationend_def Let_def createAnimationEndHandler_def
          entry_onComplete_def split: option.splits)
  have t: "isTransitioning (step origin (AnimationEnd e) s) = isTransitioning s"
    by (simp add: step_def)
  show ?case using Cons.IH [OF l] p t by simp
qed

text \<open>
  C10. When \<open>isTransitioning\<close> turns true while the pending path is \<open>null\<close> or the wrapper ref is
  \<open>null\<close>, the exit effect returns before it adds a listener: after the render no exit listener
  is registered, and whatever \<open>animationend\<close> events follow, no navigation is requested and
  \<open>isTransitioning\<close> stays true.
\<close>

theorem exit_effect_without_target:
  assumes "\<not> isTransitioning old" "isTransitioning new"
    and "pendingPathRef new = None \<or> wrapperRef new = None"
  shows "exitListener (commit old new) = None
         \<and> pushed (run origin (commit old new) (map AnimationEnd es)) = pushed new
         \<and> isTransitioning (run origin (commit old new) (map AnimationEnd es))"
proof -
  have "exitListener (exit_effect new) = None" using assms(3)
    by (auto simp: exit_effect_def falsy_def split: option.splits)
  then have l: "exitListener (commit old new) = None" using assms(1,2)
    by (simp add: commit_def Let_def entry_effect_def split: option.splits)
  show ?thesis using run_animationends_no_listener [OF l, of origin es] l assms(2) by simp
qed

theorem exit_effect_without_target_witness:
  "\<not> isTransitioning (initial ''/'') \<and> isTransitioning ((initial ''/'')\<lparr>isTransitioning := True\<rparr>)
   \<and> (pendingPathRef ((initial ''/'')\<lparr>isTransitioning := True\<rparr>) = None
      \<or> wrapperRef ((initial ''/'')\<lparr>isTransitioning := True\<rparr>) = None)
   \<and> exitListener (commit (initial ''/'') ((initial ''/'')\<lparr>isTransitioning := True\<rparr>)) = None
   \<and> pushed (run ''http://localhost:3000'' (commit (initial ''/'') ((initial ''/'')\<lparr>isTransitioning := True\<rparr>))
        (map AnimationEnd [\<lparr>animationName = ''maskFadeOut'', target = 0, currentTarget = 0\<rparr>])) = []
   \<and> isTransitioning (run ''http://localhost:3000'' (commit (initial ''/'') ((initial ''/'')\<lparr>isTransitioning := True\<rparr>))
        (map AnimationEnd [\<lparr>animationName = ''maskFadeOut'', target = 0, currentTarget = 0\<rparr>]))"
proof -
  have h1: "\<not> isTransitioning (initial ''/'')" by (simp add: initial_def)
  have h2: "isTransitioning ((initial ''/'')\<lparr>isTransitioning := True\<rparr>)" by simp
  have h3: "pendingPathRef ((initial ''/'')\<lparr>isTransitioning := True\<rparr>) = None
      \<or> wrapperRef ((initial ''/'')\<lparr>isTransitioning := True\<rparr>) = None" by (simp add: initial_def)
  have p: "pushed ((initial ''/'')\<lparr>isTransitioning := True\<rparr>) = []" by (simp add: initial_def)
  show ?thesis
    using exit_effect_without_target [OF h1 h2 h3, of "''http://localhost:3000''"
        "[\<lparr>animationName = ''maskFadeOut'', target = 0, currentTarget = 0\<rparr>]"] h1 h2 h3 p
    by simp
qed

end
